theory Spec2Isabelle
  imports Complex_Main "HOL-Library.Word"
begin

unbundle bit_operations_syntax

section \<open>Data model\<close>

text \<open>
  Python \<^verbatim>\<open>bytes\<close> are lists of 8-bit words, 16-bit register values are 16-bit words,
  and Python's unbounded \<^verbatim>\<open>int\<close> is \<^typ>\<open>int\<close>.  Exceptions are values: every
  \<^verbatim>\<open>raise ValueError(...)\<close> of the source is one constructor of \<open>msg\<close> holding the
  values the message is formatted from, wrapped in the exception class that is raised.
\<close>

type_synonym byte = "8 word"
type_synonym bytes = "byte list"
type_synonym u16 = "16 word"

datatype msg =
    Slave_id_range
  | Start_reg_range
  | Reg_count_range
  | Response_too_short
  | CRC_mismatch int int
  | Unexpected_slave_id int int
  | Unexpected_function_code int
  | Byte_count_mismatch
  | Unexpected_register_count int int
  | Data_length_odd
  | Non_hexadecimal

datatype py_error = ValueError msg | StructError | TypeError | ZeroDivisionError

section \<open>CRC16/MODBUS (aneji\_modbus\_provider.py)\<close>

text \<open>
  \<^verbatim>\<open>for _ in range(8): if crc & 0x0001: crc = (crc >> 1) ^ 0xA001 else: crc >>= 1\<close>
\<close>

primrec crc_shift_loop :: "nat \<Rightarrow> int \<Rightarrow> int" where
  "crc_shift_loop 0 crc = crc"
| "crc_shift_loop (Suc n) crc =
     crc_shift_loop n
       (if crc AND 0x0001 \<noteq> 0 then drop_bit 1 crc XOR 0xA001 else drop_bit 1 crc)"

text \<open>The body of \<^verbatim>\<open>for b in data\<close>: \<^verbatim>\<open>crc ^= b\<close>, then the eight shifts.\<close>

definition crc_update :: "int \<Rightarrow> byte \<Rightarrow> int" where
  "crc_update crc b = crc_shift_loop 8 (crc XOR uint b)"

definition crc16_modbus :: "bytes \<Rightarrow> int" where
  "crc16_modbus data = foldl crc_update 0xFFFF data AND 0xFFFF"

text \<open>
  \<^verbatim>\<open>struct.pack('<H', x)\<close> raises \<^verbatim>\<open>struct.error\<close> outside 0..65535 and writes the low
  byte first; \<^verbatim>\<open>struct.unpack('<H', bs)\<close> needs exactly two bytes.
\<close>

definition pack_le_H :: "int \<Rightarrow> py_error + bytes" where
  "pack_le_H x =
     (if 0 \<le> x \<and> x \<le> 0xFFFF
      then Inr [word_of_int (x mod 256), word_of_int (x div 256)]
      else Inl StructError)"

definition unpack_le_H :: "bytes \<Rightarrow> py_error + int" where
  "unpack_le_H bs =
     (case bs of [lo, hi] \<Rightarrow> Inr (uint lo + 256 * uint hi) | _ \<Rightarrow> Inl StructError)"

definition append_crc :: "bytes \<Rightarrow> py_error + bytes" where
  "append_crc data_wo_crc =
     (case pack_le_H (crc16_modbus data_wo_crc) of
        Inl e \<Rightarrow> Inl e
      | Inr c \<Rightarrow> Inr (data_wo_crc @ c))"

text \<open>
  The CRC as the specification words it: a 16-bit register initialised to 0xFFFF; each
  byte is XORed into the low half, then eight times the register is shifted right by one
  bit and, when the bit shifted out was set, XORed with the polynomial 0xA001.
\<close>

primrec crc16_spec_shift :: "nat \<Rightarrow> u16 \<Rightarrow> u16" where
  "crc16_spec_shift 0 r = r"
| "crc16_spec_shift (Suc n) r =
     crc16_spec_shift n (if bit r 0 then drop_bit 1 r XOR 0xA001 else drop_bit 1 r)"

definition crc16_spec :: "bytes \<Rightarrow> u16" where
  "crc16_spec data = foldl (\<lambda>r b. crc16_spec_shift 8 (r XOR ucast b)) 0xFFFF data"

section \<open>Modbus-RTU frames (aneji\_modbus\_provider.py)\<close>


text \<open>\<^verbatim>\<open>struct.pack('>H', x)\<close> of a 16-bit value: high byte, then low byte.\<close>

definition pack_be_H :: "u16 \<Rightarrow> bytes" where
  "pack_be_H w = [ucast (drop_bit 8 w), ucast w]"

text \<open>
  \<^verbatim>\<open>build_read_holding\<close>: after the three range checks every packed value fits its
  field, so \<^verbatim>\<open>struct.pack('>BHH', 0x03, start_reg, reg_count)\<close> cannot raise.
\<close>

definition build_read_holding :: "int \<Rightarrow> int \<Rightarrow> int \<Rightarrow> py_error + bytes" where
  "build_read_holding slave_id start_reg reg_count =
     (if \<not> (1 \<le> slave_id \<and> slave_id \<le> 247) then Inl (ValueError Slave_id_range)
      else if \<not> (0 \<le> start_reg \<and> start_reg \<le> 0xFFFF) then Inl (ValueError Start_reg_range)
      else if \<not> (1 \<le> reg_count \<and> reg_count \<le> 125) then Inl (ValueError Reg_count_range)
      else
        let pdu = [0x03] @ pack_be_H (word_of_int start_reg) @ pack_be_H (word_of_int reg_count);
            adu_wo_crc = [word_of_int slave_id] @ pdu
        in append_crc adu_wo_crc)"

text \<open>
  \<^verbatim>\<open>_expect_read_response\<close>.  Once \<^verbatim>\<open>len(payload) >= 5\<close> holds, \<^verbatim>\<open>payload[:-2]\<close> is
  \<open>take (length payload - 2)\<close>, \<^verbatim>\<open>payload[-2:]\<close> is \<open>drop (length payload - 2)\<close>,
  \<^verbatim>\<open>payload[3:-2]\<close> drops three bytes of the former, and the indices 0, 1, 2 are in
  range.  \<^verbatim>\<open>expected_regs\<close> may be \<^verbatim>\<open>None\<close>.
\<close>

definition expect_read_response ::
  "int \<Rightarrow> int \<Rightarrow> bytes \<Rightarrow> int option \<Rightarrow> py_error + (int \<times> bytes)" where
  "expect_read_response slave_id req_func payload expected_regs =
     (if length payload < 5 then Inl (ValueError Response_too_short)
      else
        let data_wo_crc = take (length payload - 2) payload;
            recv_crc_le = drop (length payload - 2) payload;
            calc_crc = crc16_modbus data_wo_crc
        in case unpack_le_H recv_crc_le of
             Inl e \<Rightarrow> Inl e
           | Inr recv_crc \<Rightarrow>
               if recv_crc \<noteq> calc_crc then Inl (ValueError (CRC_mismatch recv_crc calc_crc))
               else
                 let sid = uint (payload ! 0); func = uint (payload ! 1)
                 in if sid \<noteq> slave_id then Inl (ValueError (Unexpected_slave_id sid slave_id))
                    else if func \<noteq> req_func then Inl (ValueError (Unexpected_function_code func))
                    else
                      let byte_count = uint (payload ! 2);
                          data = drop 3 (take (length payload - 2) payload)
                      in if byte_count \<noteq> int (length data)
                         then Inl (ValueError Byte_count_mismatch)
                         else case expected_regs of
                                None \<Rightarrow> Inr (byte_count, data)
                              | Some n \<Rightarrow>
                                  if byte_count \<noteq> n * 2
                                  then Inl (ValueError
                                         (Unexpected_register_count (byte_count div 2) n))
                                  else Inr (byte_count, data))"

text \<open>\<^verbatim>\<open>struct.unpack('>' + 'H' * (len(data) // 2), data)\<close> on data of even length.\<close>

fun unpack_be_H_list :: "bytes \<Rightarrow> u16 list" where
  "unpack_be_H_list (hi # lo # rest) = (push_bit 8 (ucast hi) OR ucast lo) # unpack_be_H_list rest"
| "unpack_be_H_list _ = []"

definition bytes_to_u16_list :: "bytes \<Rightarrow> py_error + u16 list" where
  "bytes_to_u16_list data =
     (if length data mod 2 \<noteq> 0 then Inl (ValueError Data_length_odd)
      else Inr (unpack_be_H_list data))"

text \<open>\<^verbatim>\<open>to_hex\<close>: \<^verbatim>\<open>' '.join(f'{b:02X}' for b in frame)\<close>.\<close>

definition hex_digit :: "nat \<Rightarrow> char" where
  "hex_digit n = ''0123456789ABCDEF'' ! n"

definition hex_byte :: "byte \<Rightarrow> string" where
  "hex_byte b = [hex_digit (unat b div 16), hex_digit (unat b mod 16)]"

fun join_space :: "string list \<Rightarrow> string" where
  "join_space [] = []"
| "join_space [s] = s"
| "join_space (s # t # ss) = s @ '' '' @ join_space (t # ss)"

definition to_hex :: "bytes \<Rightarrow> string" where
  "to_hex frame = join_space (map hex_byte frame)"

text \<open>
  \<^verbatim>\<open>bytes.fromhex\<close> of the Python library: two hexadecimal digits of either case per byte,
  ASCII whitespace skipped between bytes, \<^verbatim>\<open>ValueError\<close> on anything else.
\<close>

definition hex_val :: "char \<Rightarrow> nat option" where
  "hex_val c =
     (let n = of_char c :: nat in
      if 48 \<le> n \<and> n \<le> 57 then Some (n - 48)
      else if 65 \<le> n \<and> n \<le> 70 then Some (n - 55)
      else if 97 \<le> n \<and> n \<le> 102 then Some (n - 87)
      else None)"

definition bytes_space :: "char \<Rightarrow> bool" where
  "bytes_space c = (of_char c \<in> {9, 10, 11, 12, 13, 32 :: nat})"

fun bytes_fromhex :: "string \<Rightarrow> py_error + bytes" where
  "bytes_fromhex [] = Inr []"
| "bytes_fromhex [c] = (if bytes_space c then Inr [] else Inl (ValueError Non_hexadecimal))"
| "bytes_fromhex (c # d # cs) =
     (if bytes_space c then bytes_fromhex (d # cs)
      else case (hex_val c, hex_val d) of
             (Some h, Some l) \<Rightarrow>
               (case bytes_fromhex cs of
                  Inl e \<Rightarrow> Inl e
                | Inr bs \<Rightarrow> Inr (of_nat (16 * h + l) # bs))
           | _ \<Rightarrow> Inl (ValueError Non_hexadecimal))"

text \<open>\<^verbatim>\<open>decode_read_response\<close>; \<^verbatim>\<open>response_hex.replace(' ', '')\<close> is a filter.\<close>

definition decode_read_response :: "int \<Rightarrow> int \<Rightarrow> int \<Rightarrow> string \<Rightarrow> py_error + u16 list" where
  "decode_read_response slave_id start_reg reg_count response_hex =
     (case bytes_fromhex (filter (\<lambda>c. c \<noteq> CHR '' '') response_hex) of
        Inl e \<Rightarrow> Inl e
      | Inr payload \<Rightarrow>
          (case expect_read_response slave_id 0x03 payload (Some reg_count) of
             Inl e \<Rightarrow> Inl e
           | Inr (_, data) \<Rightarrow> bytes_to_u16_list data))"

text \<open>
  The dictionary \<^verbatim>\<open>{start_reg + i: regs[i] for i in range(len(regs))}\<close> of
  \<^verbatim>\<open>parse_from_block\<close>.
\<close>

definition block_of :: "int \<Rightarrow> u16 list \<Rightarrow> (int \<rightharpoonup> u16)" where
  "block_of start_reg regs = map_of (map (\<lambda>i. (start_reg + int i, regs ! i)) [0..<length regs])"

section \<open>Runtime telemetry (aneji\_modbus\_provider.py)\<close>

text \<open>
  Python \<^verbatim>\<open>str\<close> is \<^typ>\<open>string\<close>, one \<^typ>\<open>char\<close> per code point below 256.
  \<^verbatim>\<open>bytes.decode('ascii', errors='ignore')\<close> drops every byte above 0x7F.
  \<^verbatim>\<open>str.isspace\<close> holds, below 256, for the code points 9 to 13, 28 to 32, 0x85 and 0xA0.
  \<^verbatim>\<open>s.rstrip(chars)\<close> removes the trailing characters that occur in \<^verbatim>\<open>chars\<close>;
  \<^verbatim>\<open>s.strip()\<close> removes whitespace at both ends.
\<close>

definition decode_ascii_ignore :: "bytes \<Rightarrow> string" where
  "decode_ascii_ignore bs = map (\<lambda>b. char_of (unat b)) (filter (\<lambda>b. unat b < 128) bs)"

definition str_isspace :: "char \<Rightarrow> bool" where
  "str_isspace c =
     (let n = of_char c :: nat in (9 \<le> n \<and> n \<le> 13) \<or> (28 \<le> n \<and> n \<le> 32) \<or> n = 133 \<or> n = 160)"

definition rstrip_chars :: "string \<Rightarrow> string \<Rightarrow> string" where
  "rstrip_chars chars s = rev (dropWhile (\<lambda>c. c \<in> set chars) (rev s))"

definition str_strip :: "string \<Rightarrow> string" where
  "str_strip s = rev (dropWhile str_isspace (rev (dropWhile str_isspace s)))"

text \<open>
  The module-level helper \<^verbatim>\<open>_ascii\<close>:
  \<^verbatim>\<open>bytes_seq.decode('ascii', errors='ignore').rstrip('\x00').strip()\<close>, where the
  argument of \<^verbatim>\<open>rstrip\<close> is the one-character string holding NUL.
\<close>

definition ascii :: "bytes \<Rightarrow> string" where
  "ascii bytes_seq = str_strip (rstrip_chars [CHR 0x00] (decode_ascii_ignore bytes_seq))"

text \<open>
  \<^verbatim>\<open>PowerFlow.from_raw\<close>; \<^verbatim>\<open>raw >> k\<close> is \<open>drop_bit k\<close>, \<^verbatim>\<open>&\<close> is \<open>AND\<close>.
\<close>

record PowerFlow =
  raw :: int
  pv_connected :: bool
  mains_connected :: bool
  battery_state :: string
  load_on :: bool
  mains_charging :: bool
  pv_charging :: bool

definition from_raw :: "int \<Rightarrow> PowerFlow" where
  "from_raw r =
     (let bat_bits = drop_bit 4 r AND 3 in
      \<lparr> raw = r,
        pv_connected = (r AND 3 = 1),
        mains_connected = (drop_bit 2 r AND 3 = 1),
        battery_state =
          (if bat_bits = 0 then ''idle''
           else if bat_bits = 1 then ''charging''
           else if bat_bits = 2 then ''discharging''
           else ''unknown''),
        load_on = (drop_bit 6 r AND 3 = 1),
        mains_charging = (drop_bit 8 r AND 1 = 1),
        pv_charging = (drop_bit 9 r AND 1 = 1) \<rparr>)"

text \<open>
  The dataclass \<^verbatim>\<open>RuntimeTelemetry\<close>, every field \<^verbatim>\<open>Optional\<close>.  Python floats are
  read as the real numbers they stand for: the rounding of \<^verbatim>\<open>float(x) * scale\<close> is not
  modelled.
\<close>

record RuntimeTelemetry =
  device_type :: "int option"
  device_name :: "string option"
  protocol_number :: "int option"
  serial_number :: "string option"
  work_mode :: "int option"
  power_flow :: "PowerFlow option"
  mains_voltage_v :: "real option"
  mains_freq_hz :: "real option"
  mains_power_w :: "int option"
  inv_voltage_v :: "real option"
  inv_current_a :: "real option"
  inv_freq_hz :: "real option"
  inv_power_w :: "int option"
  inv_charge_power_w :: "int option"
  inv_charge_current_a :: "real option"
  out_voltage_v :: "real option"
  out_current_a :: "real option"
  out_freq_hz :: "real option"
  out_active_power_w :: "int option"
  out_apparent_power_va :: "int option"
  load_percent :: "int option"
  bat_voltage_v :: "real option"
  bat_current_a :: "real option"
  bat_power_w :: "int option"
  soc_percent :: "int option"
  pv_voltage_v :: "real option"
  pv_current_a :: "real option"
  pv_power_w :: "int option"
  pv_charge_power_w :: "int option"
  pv_charge_current_a :: "real option"

text \<open>
  The closures of \<^verbatim>\<open>parse_from_block\<close>, with the dictionary \<^verbatim>\<open>block\<close> as a parameter.
  \<^verbatim>\<open>struct.unpack('>h', struct.pack('>H', x))\<close> reads the 16 bits as two's complement:
  \<open>sint\<close>.  \<^verbatim>\<open>int(x)\<close> of a float truncates towards zero.
\<close>

definition get_int :: "(int \<rightharpoonup> u16) \<Rightarrow> int \<Rightarrow> real \<Rightarrow> real option" where
  "get_int block addr scale =
     (case block addr of Some w \<Rightarrow> Some (real_of_int (sint w) * scale) | None \<Rightarrow> None)"

definition get_uint :: "(int \<rightharpoonup> u16) \<Rightarrow> int \<Rightarrow> int option" where
  "get_uint block addr = (case block addr of Some w \<Rightarrow> Some (uint w) | None \<Rightarrow> None)"

text \<open>
  In \<^verbatim>\<open>get_ascii\<close> the source writes \<^verbatim>\<open>.rstrip('\\x00').strip()\<close>: the argument of
  \<^verbatim>\<open>rstrip\<close> is the four-character string backslash, x, 0, 0.
\<close>

definition get_ascii :: "(int \<rightharpoonup> u16) \<Rightarrow> int \<Rightarrow> nat \<Rightarrow> string option" where
  "get_ascii block addr words =
     (if list_all (\<lambda>i. block (addr + int i) \<noteq> None) [0..<words]
      then
        let raw_bytes = concat (map (\<lambda>i. pack_be_H (the (block (addr + int i)))) [0..<words])
        in Some (str_strip (rstrip_chars [CHR 0x5C, CHR ''x'', CHR ''0'', CHR ''0'']
                   (decode_ascii_ignore raw_bytes)))
      else None)"

definition int_of_float :: "real \<Rightarrow> int" where
  "int_of_float x = (if 0 \<le> x then \<lfloor>x\<rfloor> else \<lceil>x\<rceil>)"

definition parse_from_block :: "int \<Rightarrow> u16 list \<Rightarrow> RuntimeTelemetry" where
  "parse_from_block start_reg regs =
     (let block = block_of start_reg regs in
      \<lparr> device_type = get_uint block 171,
        device_name = get_ascii block 172 12,
        protocol_number = get_uint block 184,
        serial_number = get_ascii block 186 12,
        work_mode = get_uint block 201,
        power_flow = map_option from_raw (get_uint block 231),
        mains_voltage_v = get_int block 202 (1 / 10),
        mains_freq_hz = get_int block 203 (1 / 100),
        mains_power_w = map_option int_of_float (get_int block 204 1),
        inv_voltage_v = get_int block 205 (1 / 10),
        inv_current_a = get_int block 206 (1 / 10),
        inv_freq_hz = get_int block 207 (1 / 100),
        inv_power_w = map_option int_of_float (get_int block 208 1),
        inv_charge_power_w = map_option int_of_float (get_int block 209 1),
        inv_charge_current_a = get_int block 233 (1 / 10),
        out_voltage_v = get_int block 210 (1 / 10),
        out_current_a = get_int block 211 (1 / 10),
        out_freq_hz = get_int block 212 (1 / 100),
        out_active_power_w = map_option int_of_float (get_int block 213 1),
        out_apparent_power_va = map_option int_of_float (get_int block 214 1),
        load_percent = map_option int_of_float (get_int block 225 1),
        bat_voltage_v = get_int block 215 (1 / 10),
        bat_current_a = get_int block 216 (1 / 10),
        bat_power_w = map_option int_of_float (get_int block 217 1),
        soc_percent = get_uint block 229,
        pv_voltage_v = get_int block 219 (1 / 10),
        pv_current_a = get_int block 220 (1 / 10),
        pv_power_w = map_option int_of_float (get_int block 223 1),
        pv_charge_power_w = map_option int_of_float (get_int block 224 1),
        pv_charge_current_a = get_int block 234 (1 / 10) \<rparr>)"

section \<open>Python values and the QPIGS helpers (debug\_tty.py, qpigs\_provider.py, direct\_coordinator.py)\<close>

text \<open>
  A Python float is a finite value, read as the real number it stands for (rounding and
  overflow are not modelled), or one of the two infinities, or NaN.  The values found in
  a decoded response dictionary are \<^verbatim>\<open>None\<close>, ints, floats and strings.
\<close>

datatype pyfloat = Finite real | PosInf | NegInf | NaN

datatype pyval = PyNone | PyInt int | PyFloat pyfloat | PyStr string

text \<open>
  The built-in \<^verbatim>\<open>float(str)\<close> of the Python library, after its documented grammar:
  surrounding whitespace is stripped; an optional sign; then \<^verbatim>\<open>inf\<close>, \<^verbatim>\<open>infinity\<close> or
  \<^verbatim>\<open>nan\<close> in any case, or a decimal number (digits with single underscores between
  them, an optional point, an optional exponent).  \<open>None\<close> stands for \<^verbatim>\<open>ValueError\<close>.
\<close>

definition is_digit :: "char \<Rightarrow> bool" where
  "is_digit c = (let n = of_char c :: nat in 48 \<le> n \<and> n \<le> 57)"

definition digit_value :: "char \<Rightarrow> nat" where
  "digit_value c = of_char c - 48"

definition decimal :: "string \<Rightarrow> nat" where
  "decimal ds = foldl (\<lambda>a c. 10 * a + digit_value c) 0 ds"

fun digitpart_tail :: "string \<Rightarrow> string \<times> string" where
  "digitpart_tail [] = ([], [])"
| "digitpart_tail [c] = (if is_digit c then ([c], []) else ([], [c]))"
| "digitpart_tail (c # d # cs) =
     (if is_digit c then (case digitpart_tail (d # cs) of (ds, r) \<Rightarrow> (c # ds, r))
      else if c = CHR ''_'' \<and> is_digit d then (case digitpart_tail cs of (ds, r) \<Rightarrow> (d # ds, r))
      else ([], c # d # cs))"

definition digitpart :: "string \<Rightarrow> (string \<times> string) option" where
  "digitpart s =
     (case s of
        [] \<Rightarrow> None
      | c # cs \<Rightarrow>
          if is_digit c then (case digitpart_tail cs of (ds, r) \<Rightarrow> Some (c # ds, r)) else None)"

definition float_sign :: "string \<Rightarrow> bool \<times> string" where
  "float_sign s =
     (case s of
        [] \<Rightarrow> (False, [])
      | c # r \<Rightarrow> if c = CHR ''-'' then (True, r) else if c = CHR ''+'' then (False, r) else (False, s))"

definition float_mantissa :: "string \<Rightarrow> (real \<times> string) option" where
  "float_mantissa s =
     (case digitpart s of
        Some (ip, r) \<Rightarrow>
          (case r of
             [] \<Rightarrow> Some (real (decimal ip), [])
           | c # r' \<Rightarrow>
               if c = CHR ''.''
               then (case digitpart r' of
                       Some (fp, r'') \<Rightarrow>
                         Some (real (decimal ip) + real (decimal fp) / 10 ^ length fp, r'')
                     | None \<Rightarrow> Some (real (decimal ip), r'))
               else Some (real (decimal ip), r))
      | None \<Rightarrow>
          (case s of
             [] \<Rightarrow> None
           | c # r' \<Rightarrow>
               if c = CHR ''.''
               then (case digitpart r' of
                       Some (fp, r'') \<Rightarrow> Some (real (decimal fp) / 10 ^ length fp, r'')
                     | None \<Rightarrow> None)
               else None))"

definition float_exponent :: "string \<Rightarrow> int option" where
  "float_exponent s =
     (case s of
        [] \<Rightarrow> Some 0
      | c # r \<Rightarrow>
          if c = CHR ''e'' \<or> c = CHR ''E''
          then (case float_sign r of
                  (neg, r') \<Rightarrow>
                    (case digitpart r' of
                       Some (ds, rest) \<Rightarrow>
                         if rest = [] then Some (if neg then - int (decimal ds) else int (decimal ds))
                         else None
                     | None \<Rightarrow> None))
          else None)"

definition float_number :: "string \<Rightarrow> real option" where
  "float_number s =
     (case float_mantissa s of
        None \<Rightarrow> None
      | Some (m, r) \<Rightarrow>
          (case float_exponent r of
             None \<Rightarrow> None
           | Some e \<Rightarrow> Some (if 0 \<le> e then m * 10 ^ nat e else m / 10 ^ nat (- e))))"

definition str_lower :: "string \<Rightarrow> string" where
  "str_lower s =
     map (\<lambda>c. let n = of_char c :: nat in if 65 \<le> n \<and> n \<le> 90 then char_of (n + 32) else c) s"

definition py_float :: "string \<Rightarrow> pyfloat option" where
  "py_float v =
     (case float_sign (str_strip v) of
        (neg, u) \<Rightarrow>
          if str_lower u = ''inf'' \<or> str_lower u = ''infinity''
          then Some (if neg then NegInf else PosInf)
          else if str_lower u = ''nan'' then Some NaN
          else map_option (\<lambda>x. Finite (if neg then - x else x)) (float_number u))"

text \<open>\<^verbatim>\<open>float.is_integer\<close>: false for the infinities and NaN.\<close>

definition is_integer :: "pyfloat \<Rightarrow> bool" where
  "is_integer f = (case f of Finite x \<Rightarrow> x = of_int \<lfloor>x\<rfloor> | _ \<Rightarrow> False)"

text \<open>
  \<^verbatim>\<open>str.split()\<close> without arguments: the maximal runs of non-whitespace characters.
\<close>

fun split_ws :: "string \<Rightarrow> string \<Rightarrow> string list" where
  "split_ws cur [] = (if cur = [] then [] else [rev cur])"
| "split_ws cur (c # cs) =
     (if str_isspace c
      then (if cur = [] then split_ws [] cs else rev cur # split_ws [] cs)
      else split_ws (c # cur) cs)"

definition str_split :: "string \<Rightarrow> string list" where
  "str_split s = split_ws [] s"

text \<open>
  \<^verbatim>\<open>decode_qpigs\<close> of debug\_tty.py.  In \<^verbatim>\<open>parse_value\<close> the bare \<^verbatim>\<open>except\<close> returns the
  token itself when \<^verbatim>\<open>float(v)\<close> raises; \<^verbatim>\<open>int(f)\<close> is only reached for a finite
  integral \<^verbatim>\<open>f\<close>.  \<^verbatim>\<open>dict(zip(fields, parsed_values))\<close> is the map of the zipped list,
  the field names (the list \<^verbatim>\<open>fields\<close> of the source) being distinct.
\<close>

definition qpigs_fields :: "string list" where
  "qpigs_fields =
     [''grid_voltage'', ''grid_frequency'', ''ac_output_voltage'', ''ac_output_frequency'',
      ''output_apparent_power'', ''output_active_power'', ''load_percent'', ''bus_voltage'',
      ''battery_voltage'', ''battery_charging_current'', ''battery_capacity'',
      ''inverter_heat_sink_temperature'', ''pv_input_current'', ''pv_input_voltage'',
      ''scc_battery_voltage'', ''battery_discharge_current'', ''device_status_bits_b7_b0'',
      ''battery_voltage_offset'', ''eeprom_version'', ''pv_charging_power'',
      ''device_status_bits_b10_b8'', ''reserved_a'', ''reserved_bb'', ''reserved_cccc'']"

definition parse_value :: "string \<Rightarrow> pyval" where
  "parse_value v =
     (case py_float v of
        None \<Rightarrow> PyStr v
      | Some f \<Rightarrow>
          if is_integer f
          then (case f of Finite x \<Rightarrow> PyInt (int_of_float x) | _ \<Rightarrow> PyStr v)
          else PyFloat f)"

definition decode_qpigs :: "string \<Rightarrow> (string \<rightharpoonup> pyval)" where
  "decode_qpigs ascii_str =
     (let values = str_split (str_strip ascii_str);
          parsed_values = map parse_value values
      in map_of (zip qpigs_fields parsed_values))"










section \<open>Estimators (energy\_sensors.py, mixin\_sensors.py)\<close>

text \<open>
  Powers, energies and timestamps are Python floats, read as the real numbers they stand
  for; timestamps are seconds.  The clock read by \<^verbatim>\<open>datetime.now()\<close> is the explicit
  argument \<open>now\<close>, and the instance attributes are a record that each method returns
  updated.

  \<^verbatim>\<open>MyEnergySensor.update_energy_value\<close>: \<^verbatim>\<open>elapsed_seconds\<close> is
  \<^verbatim>\<open>int(now.timestamp() - self._prev_value_timestamp.timestamp())\<close>, truncated
  towards zero by \<^verbatim>\<open>int\<close>.
\<close>

record energy_state =
  attr_native_value :: real
  prev_value :: "real option"
  prev_value_timestamp :: real

definition update_energy_value :: "real \<Rightarrow> real \<Rightarrow> energy_state \<Rightarrow> energy_state" where
  "update_energy_value now current_value s =
     (let elapsed_seconds = int_of_float (now - prev_value_timestamp s) in
      s \<lparr> attr_native_value :=
            (case prev_value s of
               Some pv \<Rightarrow>
                 attr_native_value s
                   + (real_of_int elapsed_seconds / 3600) * (pv + current_value) / 2
             | None \<Rightarrow> attr_native_value s),
          prev_value := Some current_value,
          prev_value_timestamp := now \<rparr>)"

text \<open>
  \<^verbatim>\<open>SocCalculatorMixin\<close>.  \<^verbatim>\<open>_prev_ts\<close> starts as \<^verbatim>\<open>None\<close>; subtracting it from a
  datetime raises \<^verbatim>\<open>TypeError\<close>.
\<close>

record soc_state =
  accumulated_energy_wh :: real
  prev_power :: real
  prev_ts :: "real option"
  has_prev :: bool

definition soc_init :: soc_state where
  "soc_init = \<lparr> accumulated_energy_wh = 0, prev_power = 0, prev_ts = None, has_prev = False \<rparr>"


definition accumulate :: "real \<Rightarrow> real \<Rightarrow> soc_state \<Rightarrow> py_error + soc_state" where
  "accumulate now current_power s =
     (if \<not> has_prev s
      then Inr (s \<lparr> prev_ts := Some now, prev_power := current_power, has_prev := True \<rparr>)
      else case prev_ts s of
             None \<Rightarrow> Inl TypeError
           | Some t \<Rightarrow>
               let hours = (now - t) / 3600 in
               Inr (s \<lparr> accumulated_energy_wh :=
                          accumulated_energy_wh s + (prev_power s + current_power) / 2 * hours,
                        prev_power := current_power,
                        prev_ts := Some now \<rparr>))"


section \<open>Checksum lemmas\<close>

lemma crc16_modbus_range: "0 \<le> crc16_modbus b \<and> crc16_modbus b \<le> 0xFFFF"
  unfolding crc16_modbus_def by (simp add: AND_upper2')

lemma uint_byte_of_mod: "uint (word_of_int (x mod 256) :: byte) = x mod 256"
  by (simp add: uint_word_of_int)

lemma uint_byte_of_div:
  "0 \<le> x \<Longrightarrow> x \<le> 0xFFFF \<Longrightarrow> uint (word_of_int (x div 256) :: byte) = x div 256"
  by (simp add: uint_word_of_int)

lemma unpack_le_H_pack_le_H:
  "0 \<le> x \<Longrightarrow> x \<le> 0xFFFF \<Longrightarrow> pack_le_H x = Inr c \<Longrightarrow> unpack_le_H c = Inr x"
  by (auto simp: pack_le_H_def unpack_le_H_def uint_byte_of_div uint_byte_of_mod)

lemma append_crc_eq:
  "append_crc b =
     Inr (b @ [word_of_int (crc16_modbus b mod 256), word_of_int (crc16_modbus b div 256)])"
  using crc16_modbus_range [of b] by (simp add: append_crc_def pack_le_H_def)

lemma crc_shift_loop_refines: "crc_shift_loop n (uint r) = uint (crc16_spec_shift n r)"
proof (induction n arbitrary: r)
  case 0
  show ?case by simp
next
  case (Suc n)
  have a: "(uint r AND 1 \<noteq> 0) = bit r 0"
    using bit_uint_iff [of r 0] by (simp add: and_one_eq bit_0 odd_iff_mod_2_eq_one)
  have b: "drop_bit (Suc 0) (uint r) = uint (drop_bit (Suc 0) r)"
    using take_bit_int_eq_self [of "uint r" 16] uint_lt2p [of r]
    by (simp add: unsigned_drop_bit_eq del: drop_bit_Suc)
  have c: "uint (drop_bit (Suc 0) r) XOR 0xA001 = uint (drop_bit (Suc 0) r XOR 0xA001)"
    by (simp add: uint_xor)
  show ?case
    by (simp add: a b c Suc del: drop_bit_Suc)
qed

lemma crc_update_refines:
  "crc_update (uint r) b = uint (crc16_spec_shift 8 (r XOR ucast b))"
proof -
  have "uint r XOR uint b = uint (r XOR (ucast b :: u16))"
    by (simp add: uint_xor uint_up_ucast is_up)
  then show ?thesis by (simp add: crc_update_def crc_shift_loop_refines)
qed

lemma foldl_crc_update_refines:
  "foldl crc_update (uint r) bs =
     uint (foldl (\<lambda>r b. crc16_spec_shift 8 (r XOR ucast b)) r bs)"
  by (induction bs arbitrary: r) (simp_all add: crc_update_refines)

lemma crc16_modbus_refines: "crc16_modbus bs = uint (crc16_spec bs)"
proof -
  have "foldl crc_update 0xFFFF bs = uint (crc16_spec bs)"
    using foldl_crc_update_refines [of "0xFFFF" bs] by (simp add: crc16_spec_def)
  moreover have "uint (crc16_spec bs) AND 0xFFFF = uint (crc16_spec bs)"
    using take_bit_eq_mask [of 16 "uint (crc16_spec bs)"]
      take_bit_int_eq_self [of "uint (crc16_spec bs)" 16] uint_lt2p [of "crc16_spec bs"]
    by (simp add: mask_eq_exp_minus_1)
  ultimately show ?thesis by (simp add: crc16_modbus_def)
qed

text \<open>The published check value of CRC-16/MODBUS: the ASCII digits 1 to 9 give 0x4B37.\<close>

lemma crc16_modbus_check_value:
  "crc16_modbus [0x31, 0x32, 0x33, 0x34, 0x35, 0x36, 0x37, 0x38, 0x39] = 0x4B37"
  by code_simp

section \<open>Frame lemmas\<close>

lemma hex_digit_props:
  assumes "n < 16"
  shows "hex_val (hex_digit n) = Some n" and "\<not> bytes_space (hex_digit n)"
    and "hex_digit n \<noteq> CHR '' ''"
proof -
  from assms have n: "n \<in> {0,1,2,3,4,5,6,7,8,9,10,11,12,13,14,15}"
    by (simp only: insert_iff empty_iff) arith
  from n show "hex_val (hex_digit n) = Some n"
    by (auto simp: hex_digit_def hex_val_def)
  from n show "\<not> bytes_space (hex_digit n)"
    by (auto simp: hex_digit_def bytes_space_def)
  from n show "hex_digit n \<noteq> CHR '' ''"
    by (auto simp: hex_digit_def)
qed

lemma nibble_less: "unat (b :: byte) div 16 < 16" "unat b mod 16 < 16"
  using unsigned_less [of b, where 'a = nat] by simp_all

lemma filter_space_hex_byte: "filter (\<lambda>c. c \<noteq> CHR '' '') (hex_byte b) = hex_byte b"
  by (simp add: hex_byte_def hex_digit_props nibble_less)

lemma filter_space_to_hex:
  "filter (\<lambda>c. c \<noteq> CHR '' '') (to_hex bs) = concat (map hex_byte bs)"
proof -
  have "filter (\<lambda>c. c \<noteq> CHR '' '') (join_space ss) = concat ss"
    if "\<forall>s \<in> set ss. filter (\<lambda>c. c \<noteq> CHR '' '') s = s" for ss
    using that by (induction ss rule: join_space.induct) simp_all
  then show ?thesis
    by (simp add: to_hex_def filter_space_hex_byte)
qed

lemma byte_of_nibbles: "(of_nat (16 * (unat b div 16) + unat b mod 16) :: byte) = b"
  by simp

lemma bytes_fromhex_hex_byte:
  "bytes_fromhex (hex_byte b @ cs) =
     (case bytes_fromhex cs of Inl e \<Rightarrow> Inl e | Inr bs \<Rightarrow> Inr (b # bs))"
proof -
  have "bytes_fromhex (hex_byte b @ cs) =
     (case bytes_fromhex cs of Inl e \<Rightarrow> Inl e
      | Inr bs \<Rightarrow> Inr (of_nat (16 * (unat b div 16) + unat b mod 16) # bs))"
    by (simp add: hex_byte_def hex_digit_props nibble_less del: of_nat_add of_nat_mult)
  then show ?thesis
    by (simp only: byte_of_nibbles)
qed

lemma bytes_fromhex_concat: "bytes_fromhex (concat (map hex_byte bs)) = Inr bs"
  by (induction bs) (simp_all add: bytes_fromhex_hex_byte)

lemma bytes_fromhex_to_hex:
  "bytes_fromhex (filter (\<lambda>c. c \<noteq> CHR '' '') (to_hex bs)) = Inr bs"
  by (simp add: filter_space_to_hex bytes_fromhex_concat)

lemma unpack_be_H_pack_be_H: "push_bit 8 (ucast (ucast (drop_bit 8 w) :: byte)) OR ucast (ucast w :: byte) = (w :: u16)"
  by (rule bit_word_eqI) (auto simp: bit_simps)

lemma unpack_be_H_list_concat: "unpack_be_H_list (concat (map pack_be_H v)) = v"
  by (induction v) (simp_all add: pack_be_H_def unpack_be_H_pack_be_H)

lemma length_concat_pack_be_H: "length (concat (map pack_be_H v)) = 2 * length v"
  by (induction v) (simp_all add: pack_be_H_def)

lemma block_of_Some:
  "i < length regs \<Longrightarrow> block_of start_reg regs (start_reg + int i) = Some (regs ! i)"
proof -
  assume i: "i < length regs"
  have d: "distinct (map fst (map (\<lambda>i. (start_reg + int i, regs ! i)) [0..<length regs]))"
    by (simp add: distinct_map comp_def inj_on_def)
  have "(start_reg + int i, regs ! i) \<in> set (map (\<lambda>i. (start_reg + int i, regs ! i)) [0..<length regs])"
    using i by auto
  with d show ?thesis unfolding block_of_def by (rule map_of_is_SomeI)
qed

lemma dom_block_of: "dom (block_of start_reg regs) = {start_reg ..< start_reg + int (length regs)}"
proof -
  have "dom (block_of start_reg regs) = (\<lambda>i. start_reg + int i) ` {0..<length regs}"
    by (simp add: block_of_def dom_map_of_conv_image_fst image_image)
  also have "\<dots> = {start_reg ..< start_reg + int (length regs)}"
  proof (rule set_eqI)
    fix a
    show "a \<in> (\<lambda>i. start_reg + int i) ` {0..<length regs} \<longleftrightarrow> a \<in> {start_reg ..< start_reg + int (length regs)}"
    proof
      assume "a \<in> (\<lambda>i. start_reg + int i) ` {0..<length regs}"
      then show "a \<in> {start_reg ..< start_reg + int (length regs)}" by auto
    next
      assume a: "a \<in> {start_reg ..< start_reg + int (length regs)}"
      then have "nat (a - start_reg) \<in> {0..<length regs}" and "a = start_reg + int (nat (a - start_reg))"
        by auto
      then show "a \<in> (\<lambda>i. start_reg + int i) ` {0..<length regs}" by (rule_tac image_eqI)
    qed
  qed
  finally show ?thesis .
qed


lemma drop_last_two:
  assumes "2 \<le> length p"
  shows "drop (length p - 2) p = [p ! (length p - 2), p ! (length p - 1)]"
proof (cases p rule: rev_cases)
  case Nil
  with assms show ?thesis by simp
next
  case (snoc ys b)
  show ?thesis
  proof (cases ys rule: rev_cases)
    case Nil
    with snoc assms show ?thesis by simp
  next
    case (snoc xs a)
    have "p = xs @ [a, b]" using \<open>p = ys @ [b]\<close> snoc by simp
    then show ?thesis by (simp add: nth_append)
  qed
qed

lemma unpack_le_H_last_two:
  "2 \<le> length p \<Longrightarrow>
     unpack_le_H (drop (length p - 2) p) =
       Inr (uint (p ! (length p - 2)) + 256 * uint (p ! (length p - 1)))"
  by (simp add: drop_last_two unpack_le_H_def)

lemma expect_read_response_valid:
  assumes "append_crc (s # f # bc # data) = Inr frame"
    and "uint bc = int (length data)" and "uint bc = n * 2"
  shows "expect_read_response (uint s) (uint f) frame (Some n) = Inr (uint bc, data)"
proof -
  let ?body = "s # f # bc # data"
  let ?c = "[word_of_int (crc16_modbus ?body mod 256), word_of_int (crc16_modbus ?body div 256)] :: bytes"
  have fr: "frame = ?body @ ?c"
    using assms(1) by (simp add: append_crc_eq)
  have p: "pack_le_H (crc16_modbus ?body) = Inr ?c"
    using crc16_modbus_range [of ?body] by (simp add: pack_le_H_def)
  have u: "unpack_le_H ?c = Inr (crc16_modbus ?body)"
    using crc16_modbus_range [of ?body] p by (intro unpack_le_H_pack_le_H) simp_all
  have t: "take (length frame - 2) frame = ?body" and d: "drop (length frame - 2) frame = ?c"
    by (simp_all add: fr)
  have l: "\<not> length frame < 5" by (simp add: fr)
  have i: "frame ! 0 = s" "frame ! 1 = f" "frame ! 2 = bc"
    by (simp_all add: fr)
  show ?thesis
    unfolding expect_read_response_def
    using assms(2,3) by (simp add: l t d u i Let_def del: One_nat_def)
qed

section \<open>Telemetry lemmas\<close>

lemma get_uint_None_iff: "get_uint block a = None \<longleftrightarrow> a \<notin> dom block"
  by (simp add: get_uint_def domIff split: option.splits)

lemma get_int_None_iff: "get_int block a sc = None \<longleftrightarrow> a \<notin> dom block"
  by (simp add: get_int_def domIff split: option.splits)

lemma get_ascii_None_iff:
  "get_ascii block a n = None \<longleftrightarrow> (\<exists>i<n. a + int i \<notin> dom block)"
  by (auto simp: get_ascii_def list_all_iff domIff Let_def)

lemma parse_from_block_sel:
  "device_type (parse_from_block s r) = get_uint (block_of s r) 171"
  "device_name (parse_from_block s r) = get_ascii (block_of s r) 172 12"
  "protocol_number (parse_from_block s r) = get_uint (block_of s r) 184"
  "serial_number (parse_from_block s r) = get_ascii (block_of s r) 186 12"
  "work_mode (parse_from_block s r) = get_uint (block_of s r) 201"
  "power_flow (parse_from_block s r) = map_option from_raw (get_uint (block_of s r) 231)"
  "mains_voltage_v (parse_from_block s r) = get_int (block_of s r) 202 (1 / 10)"
  "mains_freq_hz (parse_from_block s r) = get_int (block_of s r) 203 (1 / 100)"
  "mains_power_w (parse_from_block s r) = map_option int_of_float (get_int (block_of s r) 204 1)"
  "inv_voltage_v (parse_from_block s r) = get_int (block_of s r) 205 (1 / 10)"
  "inv_current_a (parse_from_block s r) = get_int (block_of s r) 206 (1 / 10)"
  "inv_freq_hz (parse_from_block s r) = get_int (block_of s r) 207 (1 / 100)"
  "inv_power_w (parse_from_block s r) = map_option int_of_float (get_int (block_of s r) 208 1)"
  "inv_charge_power_w (parse_from_block s r) = map_option int_of_float (get_int (block_of s r) 209 1)"
  "inv_charge_current_a (parse_from_block s r) = get_int (block_of s r) 233 (1 / 10)"
  "out_voltage_v (parse_from_block s r) = get_int (block_of s r) 210 (1 / 10)"
  "out_current_a (parse_from_block s r) = get_int (block_of s r) 211 (1 / 10)"
  "out_freq_hz (parse_from_block s r) = get_int (block_of s r) 212 (1 / 100)"
  "out_active_power_w (parse_from_block s r) = map_option int_of_float (get_int (block_of s r) 213 1)"
  "out_apparent_power_va (parse_from_block s r) = map_option int_of_float (get_int (block_of s r) 214 1)"
  "load_percent (parse_from_block s r) = map_option int_of_float (get_int (block_of s r) 225 1)"
  "bat_voltage_v (parse_from_block s r) = get_int (block_of s r) 215 (1 / 10)"
  "bat_current_a (parse_from_block s r) = get_int (block_of s r) 216 (1 / 10)"
  "bat_power_w (parse_from_block s r) = map_option int_of_float (get_int (block_of s r) 217 1)"
  "soc_percent (parse_from_block s r) = get_uint (block_of s r) 229"
  "pv_voltage_v (parse_from_block s r) = get_int (block_of s r) 219 (1 / 10)"
  "pv_current_a (parse_from_block s r) = get_int (block_of s r) 220 (1 / 10)"
  "pv_power_w (parse_from_block s r) = map_option int_of_float (get_int (block_of s r) 223 1)"
  "pv_charge_power_w (parse_from_block s r) = map_option int_of_float (get_int (block_of s r) 224 1)"
  "pv_charge_current_a (parse_from_block s r) = get_int (block_of s r) 234 (1 / 10)"
  by (simp_all add: parse_from_block_def Let_def)

lemma decode_read_response_valid:
  assumes "append_crc (word_of_int sid # 0x03 # bc # concat (map pack_be_H v)) = Inr frame"
    and "uint bc = 2 * int (length v)" and "0 \<le> sid" and "sid < 256"
  shows "decode_read_response sid start_reg (int (length v)) (to_hex frame) = Inr v"
proof -
  let ?data = "concat (map pack_be_H v)"
  have s: "uint (word_of_int sid :: byte) = sid"
    using assms(3,4) by (simp add: uint_word_of_int)
  have "expect_read_response (uint (word_of_int sid :: byte)) (uint (0x03 :: byte)) frame
          (Some (int (length v))) = Inr (uint bc, ?data)"
    using assms(1,2) by (intro expect_read_response_valid) (simp_all add: length_concat_pack_be_H)
  then have e: "expect_read_response sid 0x03 frame (Some (int (length v))) = Inr (uint bc, ?data)"
    by (simp add: s)
  have b: "bytes_to_u16_list ?data = Inr v"
    by (simp add: bytes_to_u16_list_def length_concat_pack_be_H unpack_be_H_list_concat)
  show ?thesis
    by (simp add: decode_read_response_def bytes_fromhex_to_hex e b)
qed

section \<open>Estimator lemmas\<close>

lemma accumulate_first:
  "\<not> has_prev s \<Longrightarrow>
     accumulate now p s = Inr (s \<lparr> prev_ts := Some now, prev_power := p, has_prev := True \<rparr>)"
  by (simp add: accumulate_def)

lemma accumulate_next:
  "has_prev s \<Longrightarrow> prev_ts s = Some t \<Longrightarrow>
     accumulate now p s =
       Inr (s \<lparr> accumulated_energy_wh :=
                  accumulated_energy_wh s + (prev_power s + p) / 2 * ((now - t) / 3600),
                prev_power := p, prev_ts := Some now \<rparr>)"
  by (simp add: accumulate_def)



section \<open>Decoder and resolver lemmas\<close>

lemma map_of_zip_nth_distinct:
  "distinct xs \<Longrightarrow> i < length xs \<Longrightarrow> i < length ys \<Longrightarrow> map_of (zip xs ys) (xs ! i) = Some (ys ! i)"
proof (induction xs arbitrary: i ys)
  case Nil
  then show ?case by simp
next
  case (Cons x xs)
  then obtain y ys' where ys: "ys = y # ys'" by (cases ys) auto
  show ?case
  proof (cases i)
    case 0
    then show ?thesis by (simp add: ys)
  next
    case (Suc j)
    with Cons.prems ys have "xs ! j \<noteq> x" by auto
    with Suc Cons ys show ?thesis by simp
  qed
qed

lemma map_of_zip_short:
  "distinct xs \<Longrightarrow> i < length xs \<Longrightarrow> length ys \<le> i \<Longrightarrow> map_of (zip xs ys) (xs ! i) = None"
proof (induction xs arbitrary: i ys)
  case Nil
  then show ?case by simp
next
  case (Cons x xs)
  show ?case
  proof (cases ys)
    case Nil
    then show ?thesis by simp
  next
    case (Cons y ys')
    with Cons.prems obtain j where j: "i = Suc j" by (cases i) auto
    with Cons.prems have "xs ! j \<noteq> x" by auto
    with j Cons.prems Cons.IH [of j ys'] Cons show ?thesis by simp
  qed
qed

lemma distinct_qpigs_fields: "distinct qpigs_fields" and length_qpigs_fields: "length qpigs_fields = 24"
  by (simp_all add: qpigs_fields_def)

lemma parse_value_cases:
  "parse_value t =
     (case py_float t of
        None \<Rightarrow> PyStr t
      | Some (Finite x) \<Rightarrow> if x \<in> \<int> then PyInt \<lfloor>x\<rfloor> else PyFloat (Finite x)
      | Some f \<Rightarrow> PyFloat f)"
proof -
  have z: "(x = real_of_int \<lfloor>x\<rfloor>) = (x \<in> \<int>)" for x :: real
    by (metis Ints_of_int of_int_floor)
  have f: "x \<in> \<int> \<Longrightarrow> int_of_float x = \<lfloor>x\<rfloor>" for x
    by (auto simp: int_of_float_def Ints_def)
  show ?thesis
    by (auto simp: parse_value_def is_integer_def z f split: option.splits pyfloat.splits)
qed


lemma decode_qpigs_nth:
  assumes "i < 24"
  shows "decode_qpigs s (qpigs_fields ! i) =
     (if i < length (str_split (str_strip s))
      then Some (parse_value (str_split (str_strip s) ! i)) else None)"
proof (cases "i < length (str_split (str_strip s))")
  case True
  then show ?thesis
    using assms map_of_zip_nth_distinct [OF distinct_qpigs_fields, of i
        "map parse_value (str_split (str_strip s))"]
    by (simp add: decode_qpigs_def length_qpigs_fields)
next
  case False
  then show ?thesis
    using assms map_of_zip_short [OF distinct_qpigs_fields, of i
        "map parse_value (str_split (str_strip s))"]
    by (simp add: decode_qpigs_def length_qpigs_fields)
qed

lemma qpigs_example_tokens:
  "str_split (str_strip ''230.0 50.0 230.0 50.0 0800 0600 030 392 52.4 010 062'')
   = [''230.0'', ''50.0'', ''230.0'', ''50.0'', ''0800'', ''0600'', ''030'', ''392'',
      ''52.4'', ''010'', ''062'']"
  by code_simp

lemma qpigs_example_floats:
  "py_float ''230.0'' = Some (Finite 230)"
  "py_float ''52.4'' = Some (Finite (524 / 10))"
  "py_float ''062'' = Some (Finite 62)"
  by code_simp+

lemma qpigs_field_names:
  "qpigs_fields ! 0 = ''grid_voltage''"
  "qpigs_fields ! 8 = ''battery_voltage''"
  "qpigs_fields ! 10 = ''battery_capacity''"
  "qpigs_fields ! 11 = ''inverter_heat_sink_temperature''"
  by (simp_all add: qpigs_fields_def)

lemma not_int_524: "(524 / 10 :: real) \<notin> \<int>"
proof
  assume "(524 / 10 :: real) \<in> \<int>"
  then obtain k :: int where k: "(524 / 10 :: real) = of_int k" by (auto simp: Ints_def)
  then have "real_of_int (10 * k) = real_of_int 524" by simp
  then have "10 * k = 524" by (simp only: of_int_eq_iff)
  then show False by presburger
qed



section \<open>Claims\<close>

text \<open>
  C1. For every byte sequence \<open>b\<close>, \<open>append_crc b\<close> returns (it never raises) \<open>b\<close> followed
  by the two bytes of \<open>crc16_modbus b\<close>, low byte first; \<open>crc16_modbus\<close> is the 16-bit
  CRC with polynomial 0xA001 and initial value 0xFFFF, shifted bit by bit LSB-first; and
  the validator's computation on the appended frame, the CRC of the first \<open>length b\<close>
  bytes compared with the little-endian value of the trailing two bytes, matches.
\<close>

theorem append_crc_roundtrip:
  "\<exists>frame. append_crc b = Inr frame
     \<and> frame = b @ [word_of_int (crc16_modbus b mod 256), word_of_int (crc16_modbus b div 256)]
     \<and> crc16_modbus b = uint (crc16_spec b)
     \<and> unpack_le_H (drop (length b) frame) = Inr (crc16_modbus (take (length b) frame))"
proof -
  let ?c = "[word_of_int (crc16_modbus b mod 256), word_of_int (crc16_modbus b div 256)] :: bytes"
  have p: "pack_le_H (crc16_modbus b) = Inr ?c"
    using crc16_modbus_range [of b] by (simp add: pack_le_H_def)
  have "unpack_le_H ?c = Inr (crc16_modbus b)"
    using crc16_modbus_range [of b] p by (intro unpack_le_H_pack_le_H) simp_all
  then show ?thesis
    by (simp add: append_crc_eq crc16_modbus_refines)
qed

text \<open>
  C2. For every list \<open>v\<close> of 67 register values: the request \<open>build_read_holding 1 171 67\<close>
  is built (it is the frame 01 03 00 AB 00 43 75 DB); the synthetic valid response, slave
  id 1, function 0x03, byte count 134, the 67 values big-endian and the CRC appended by
  \<open>append_crc\<close>, written as hex text by \<open>to_hex\<close>, decodes through
  \<open>decode_read_response 1 171 67\<close> to exactly \<open>v\<close>; and the dictionary that
  \<open>parse_from_block 171 v\<close> reads its fields from holds \<open>v ! i\<close> at address \<open>171 + i\<close>,
  its keys being exactly 171..237, so that for instance the field of address 171 is
  \<open>v ! 0\<close> and the field of address 229 is \<open>v ! 58\<close>.
\<close>

theorem read_holding_roundtrip:
  assumes "length v = 67"
  shows "build_read_holding 1 171 67 = Inr [0x01, 0x03, 0x00, 0xAB, 0x00, 0x43, 0x75, 0xDB]
    \<and> (\<exists>frame. append_crc ([0x01, 0x03, 134] @ concat (map pack_be_H v)) = Inr frame
          \<and> decode_read_response 1 171 67 (to_hex frame) = Inr v)
    \<and> (\<forall>i<67. block_of 171 v (171 + int i) = Some (v ! i))
    \<and> dom (block_of 171 v) = {171..237}
    \<and> device_type (parse_from_block 171 v) = Some (uint (v ! 0))
    \<and> soc_percent (parse_from_block 171 v) = Some (uint (v ! 58))"
proof -
  have a: "build_read_holding 1 171 67 = Inr [0x01, 0x03, 0x00, 0xAB, 0x00, 0x43, 0x75, 0xDB]"
    by code_simp
  obtain frame where f: "append_crc (word_of_int 1 # 0x03 # 134 # concat (map pack_be_H v)) = Inr frame"
    by (simp add: append_crc_eq)
  have "decode_read_response 1 171 (int (length v)) (to_hex frame) = Inr v"
    using f by (rule decode_read_response_valid) (simp_all add: assms)
  with f have b: "\<exists>frame. append_crc ([0x01, 0x03, 134] @ concat (map pack_be_H v)) = Inr frame
          \<and> decode_read_response 1 171 67 (to_hex frame) = Inr v"
    by (simp add: assms)
  have c: "\<forall>i<67. block_of 171 v (171 + int i) = Some (v ! i)"
    by (simp add: block_of_Some assms)
  have d: "dom (block_of 171 v) = {171..237}"
    by (auto simp: dom_block_of assms)
  have e: "device_type (parse_from_block 171 v) = Some (uint (v ! 0))"
    using block_of_Some [of 0 v 171] by (simp add: parse_from_block_sel get_uint_def assms)
  have g: "soc_percent (parse_from_block 171 v) = Some (uint (v ! 58))"
    using block_of_Some [of 58 v 171] by (simp add: parse_from_block_sel get_uint_def assms)
  from a b c d e g show ?thesis by blast
qed

theorem read_holding_roundtrip_witness:
  "length (replicate 67 (0x1234 :: u16)) = 67
    \<and> (\<exists>frame. append_crc ([0x01, 0x03, 134] @ concat (map pack_be_H (replicate 67 0x1234))) = Inr frame
          \<and> decode_read_response 1 171 67 (to_hex frame) = Inr (replicate 67 0x1234))
    \<and> block_of 171 (replicate 67 0x1234) 237 = Some 0x1234
    \<and> soc_percent (parse_from_block 171 (replicate 67 0x1234)) = Some 0x1234"
proof -
  let ?v = "replicate 67 (0x1234 :: u16)"
  have l: "length ?v = 67" by simp
  note r = read_holding_roundtrip [OF l]
  from r have q: "\<forall>i<67. block_of 171 ?v (171 + int i) = Some (?v ! i)"
    by (elim conjE) assumption
  then have "block_of 171 ?v (171 + int 66) = Some (?v ! 66)"
    by (elim allE [of _ 66]) simp
  then have b: "block_of 171 ?v 237 = Some 0x1234" by simp
  from r have "soc_percent (parse_from_block 171 ?v) = Some (uint (?v ! 58))"
    by (elim conjE) assumption
  then have c: "soc_percent (parse_from_block 171 ?v) = Some 0x1234" by simp
  from r have d: "\<exists>frame. append_crc ([0x01, 0x03, 134] @ concat (map pack_be_H ?v)) = Inr frame
          \<and> decode_read_response 1 171 67 (to_hex frame) = Inr ?v"
    by (elim conjE) assumption
  from l b c d show ?thesis by (intro conjI)
qed

text \<open>
  C3, as the code has it.  \<open>expect_read_response\<close> checks a read response in this order
  and stops at the first violation, each with a \<^verbatim>\<open>ValueError\<close> of its own message:
  (1) fewer than 5 bytes; (2) the trailing little-endian CRC differs from the CRC of all
  bytes but the last two; (3) the slave id differs from the requested one; (4) the
  function code differs from the requested one, the error carrying the received code
  whatever its high bit; (5) the declared byte count differs from the number of payload
  bytes, and then from twice the requested register count.  When no check fails the
  result is the byte count with the payload bytes, none dropped.
\<close>

theorem expect_read_response_ordered_checks:
  "expect_read_response slave_id req_func p (Some n) =
     (if length p < 5 then Inl (ValueError Response_too_short)
      else if uint (p ! (length p - 2)) + 256 * uint (p ! (length p - 1))
                \<noteq> crc16_modbus (take (length p - 2) p)
        then Inl (ValueError (CRC_mismatch
                   (uint (p ! (length p - 2)) + 256 * uint (p ! (length p - 1)))
                   (crc16_modbus (take (length p - 2) p))))
      else if uint (p ! 0) \<noteq> slave_id
        then Inl (ValueError (Unexpected_slave_id (uint (p ! 0)) slave_id))
      else if uint (p ! 1) \<noteq> req_func
        then Inl (ValueError (Unexpected_function_code (uint (p ! 1))))
      else if uint (p ! 2) \<noteq> int (length p) - 5
        then Inl (ValueError Byte_count_mismatch)
      else if uint (p ! 2) \<noteq> 2 * n
        then Inl (ValueError (Unexpected_register_count (uint (p ! 2) div 2) n))
      else Inr (uint (p ! 2), take (length p - 5) (drop 3 p)))"
proof (cases "length p < 5")
  case True
  then show ?thesis by (simp add: expect_read_response_def)
next
  case False
  then have u: "unpack_le_H (drop (length p - 2) p) =
       Inr (uint (p ! (length p - 2)) + 256 * uint (p ! (length p - 1)))"
    by (intro unpack_le_H_last_two) simp
  from False have d: "drop 3 (take (length p - 2) p) = take (length p - 5) (drop 3 p)"
    by (simp add: drop_take)
  from False have l: "int (length p - 5) = int (length p) - 5" by simp
  from False show ?thesis
    by (simp add: expect_read_response_def u d l Let_def mult.commute)
qed

theorem expect_read_response_ordered_checks_witness:
  "expect_read_response 1 3 [0x01, 0x03, 0x02, 0x12, 0x34, 0xB5, 0x33] (Some 1) = Inr (2, [0x12, 0x34])
   \<and> expect_read_response 1 3 [0x01, 0x03, 0x02, 0x12, 0x34, 0xB5, 0x33] (Some 2)
        = Inl (ValueError (Unexpected_register_count 1 2))
   \<and> expect_read_response 2 3 [0x01, 0x03, 0x02, 0x12, 0x34, 0xB5, 0x33] (Some 1)
        = Inl (ValueError (Unexpected_slave_id 1 2))
   \<and> expect_read_response 1 3 [0x01, 0x03, 0x02, 0x12, 0x34, 0xB5, 0x34] (Some 1)
        = Inl (ValueError (CRC_mismatch 0x34B5 0x33B5))"
proof -
  have c: "crc16_modbus [0x01, 0x03, 0x02, 0x12, 0x34] = 0x33B5" by code_simp
  show ?thesis
    using expect_read_response_ordered_checks [of 1 3 "[0x01, 0x03, 0x02, 0x12, 0x34, 0xB5, 0x33]" 1]
      expect_read_response_ordered_checks [of 1 3 "[0x01, 0x03, 0x02, 0x12, 0x34, 0xB5, 0x33]" 2]
      expect_read_response_ordered_checks [of 2 3 "[0x01, 0x03, 0x02, 0x12, 0x34, 0xB5, 0x33]" 1]
      expect_read_response_ordered_checks [of 1 3 "[0x01, 0x03, 0x02, 0x12, 0x34, 0xB5, 0x34]" 1]
    by (simp add: c)
qed

text \<open>
  C3 as stated asks for a device-reported exception (function code with the high bit set,
  such as 0x83) to be surfaced distinctly from a generic mismatch.  The code has one raise
  for both: the exception reply 01 83 02 and the reply 01 04 02 with an unrelated function
  code, each with its valid CRC, both fail with the same message template, differing only
  in the code it prints.
\<close>

theorem exception_reply_not_distinguished:
  "expect_read_response 1 3 [0x01, 0x83, 0x02, 0xC0, 0xF1] (Some 67)
     = Inl (ValueError (Unexpected_function_code 0x83))
   \<and> expect_read_response 1 3 [0x01, 0x04, 0x02, 0xA3, 0x01] (Some 67)
     = Inl (ValueError (Unexpected_function_code 0x04))"
  by code_simp




text \<open>
  C5, as the code has it.  On the first power sample (no previous sample recorded) both
  accumulators store the sample and the timestamp and add nothing.  On every later
  sample they add (previous power + current power) / 2 times the elapsed hours and then
  replace the stored sample and timestamp, where the elapsed hours are, in
  \<open>update_energy_value\<close>, the difference of the two timestamps truncated to whole seconds
  and divided by 3600, and in \<open>accumulate\<close> the exact difference divided by 3600.
\<close>

theorem energy_accumulator_update:
  "(prev_value s = None \<longrightarrow>
       update_energy_value now p s
         = s \<lparr> prev_value := Some p, prev_value_timestamp := now \<rparr>)
   \<and> (prev_value s = Some q \<longrightarrow>
       update_energy_value now p s
         = s \<lparr> attr_native_value := attr_native_value s
                 + (q + p) / 2 * (real_of_int (int_of_float (now - prev_value_timestamp s)) / 3600),
               prev_value := Some p, prev_value_timestamp := now \<rparr>)
   \<and> (\<not> has_prev c \<longrightarrow>
       accumulate now p c = Inr (c \<lparr> prev_ts := Some now, prev_power := p, has_prev := True \<rparr>))
   \<and> (has_prev c \<and> prev_ts c = Some t \<longrightarrow>
       accumulate now p c
         = Inr (c \<lparr> accumulated_energy_wh := accumulated_energy_wh c
                      + (prev_power c + p) / 2 * ((now - t) / 3600),
                    prev_power := p, prev_ts := Some now \<rparr>))"
  by (simp add: update_energy_value_def accumulate_first accumulate_next)

theorem energy_accumulator_update_witness:
  "update_energy_value 3600 100
      (update_energy_value 0 100
         \<lparr> attr_native_value = 7, prev_value = None, prev_value_timestamp = - 5 \<rparr>)
     = \<lparr> attr_native_value = 107, prev_value = Some 100, prev_value_timestamp = 3600 \<rparr>
   \<and> update_energy_value 3600 200
      (update_energy_value 0 0
         \<lparr> attr_native_value = 7, prev_value = None, prev_value_timestamp = - 5 \<rparr>)
     = \<lparr> attr_native_value = 107, prev_value = Some 200, prev_value_timestamp = 3600 \<rparr>
   \<and> accumulate 0 100 soc_init
     = Inr \<lparr> accumulated_energy_wh = 0, prev_power = 100, prev_ts = Some 0, has_prev = True \<rparr>
   \<and> accumulate 3600 100
        \<lparr> accumulated_energy_wh = 0, prev_power = 100, prev_ts = Some 0, has_prev = True \<rparr>
     = Inr \<lparr> accumulated_energy_wh = 100, prev_power = 100, prev_ts = Some 3600, has_prev = True \<rparr>
   \<and> accumulate 3600 200
        \<lparr> accumulated_energy_wh = 0, prev_power = 0, prev_ts = Some 0, has_prev = True \<rparr>
     = Inr \<lparr> accumulated_energy_wh = 100, prev_power = 200, prev_ts = Some 3600, has_prev = True \<rparr>"
proof -
  let ?e0 = "\<lparr> attr_native_value = 7, prev_value = None, prev_value_timestamp = - 5 \<rparr>"
  let ?c1 = "\<lparr> accumulated_energy_wh = 0, prev_power = 100, prev_ts = Some 0, has_prev = True \<rparr>"
  let ?c2 = "\<lparr> accumulated_energy_wh = 0, prev_power = 0, prev_ts = Some 0, has_prev = True \<rparr>"
  have a1: "update_energy_value 0 100 ?e0
     = \<lparr> attr_native_value = 7, prev_value = Some 100, prev_value_timestamp = 0 \<rparr>"
    using energy_accumulator_update [where s = ?e0 and now = 0 and p = 100 and c = soc_init]
    by simp
  have a2: "update_energy_value 0 0 ?e0
     = \<lparr> attr_native_value = 7, prev_value = Some 0, prev_value_timestamp = 0 \<rparr>"
    using energy_accumulator_update [where s = ?e0 and now = 0 and p = 0 and c = soc_init]
    by simp
  have b1: "update_energy_value 3600 100
        \<lparr> attr_native_value = 7, prev_value = Some 100, prev_value_timestamp = 0 \<rparr>
     = \<lparr> attr_native_value = 107, prev_value = Some 100, prev_value_timestamp = 3600 \<rparr>"
    using energy_accumulator_update [where now = 3600 and p = 100 and q = 100 and c = soc_init
        and s = "\<lparr> attr_native_value = 7, prev_value = Some 100, prev_value_timestamp = 0 \<rparr>"]
    by (simp add: int_of_float_def)
  have b2: "update_energy_value 3600 200
        \<lparr> attr_native_value = 7, prev_value = Some 0, prev_value_timestamp = 0 \<rparr>
     = \<lparr> attr_native_value = 107, prev_value = Some 200, prev_value_timestamp = 3600 \<rparr>"
    using energy_accumulator_update [where now = 3600 and p = 200 and q = 0 and c = soc_init
        and s = "\<lparr> attr_native_value = 7, prev_value = Some 0, prev_value_timestamp = 0 \<rparr>"]
    by (simp add: int_of_float_def)
  have c0: "accumulate 0 100 soc_init = Inr ?c1"
    using energy_accumulator_update [where s = ?e0 and now = 0 and p = 100 and c = soc_init]
    by (simp add: soc_init_def)
  have c1: "accumulate 3600 100 ?c1
     = Inr \<lparr> accumulated_energy_wh = 100, prev_power = 100, prev_ts = Some 3600, has_prev = True \<rparr>"
    using energy_accumulator_update [where s = ?e0 and now = 3600 and p = 100 and c = ?c1 and t = 0]
    by simp
  have c2: "accumulate 3600 200 ?c2
     = Inr \<lparr> accumulated_energy_wh = 100, prev_power = 200, prev_ts = Some 3600, has_prev = True \<rparr>"
    using energy_accumulator_update [where s = ?e0 and now = 3600 and p = 200 and c = ?c2 and t = 0]
    by simp
  from a1 a2 b1 b2 c0 c1 c2 show ?thesis by simp
qed

text \<open>
  C5 as stated takes the elapsed time to be the wall-clock difference between the two
  samples.  \<open>update_energy_value\<close> truncates it to whole seconds: two samples of 100 W
  half a second apart add nothing, where the trapezoid over the wall-clock difference is
  not zero.
\<close>

theorem update_energy_value_truncates_seconds:
  "attr_native_value (update_energy_value (1 / 2) 100
      \<lparr> attr_native_value = 0, prev_value = Some 100, prev_value_timestamp = 0 \<rparr>) = 0
   \<and> (100 + 100) / 2 * ((1 / 2 - 0) / 3600) \<noteq> (0 :: real)"
  by (simp add: update_energy_value_def int_of_float_def)



text \<open>
  C7. For every start register and register list, each scalar field of the telemetry
  returned by \<open>parse_from_block\<close> is \<open>None\<close> exactly when its address is not a key of the
  decoded block, and each 12-register ASCII field is \<open>None\<close> exactly when one of its
  constituent addresses is not: an absent register never yields zero or another
  sentinel, and a present one never yields \<open>None\<close>.  The block holds exactly the
  addresses \<open>s\<close> up to \<open>s + length r - 1\<close>, whatever part of the register map they cover;
  \<open>parse_from_block\<close> has no raise and is a total function.
\<close>

theorem parse_from_block_absent_fields:
  "(device_type (parse_from_block s r) = None \<longleftrightarrow> 171 \<notin> dom (block_of s r))
 \<and> (device_name (parse_from_block s r) = None \<longleftrightarrow> (\<exists>i<12. 172 + int i \<notin> dom (block_of s r)))
 \<and> (protocol_number (parse_from_block s r) = None \<longleftrightarrow> 184 \<notin> dom (block_of s r))
 \<and> (serial_number (parse_from_block s r) = None \<longleftrightarrow> (\<exists>i<12. 186 + int i \<notin> dom (block_of s r)))
 \<and> (work_mode (parse_from_block s r) = None \<longleftrightarrow> 201 \<notin> dom (block_of s r))
 \<and> (power_flow (parse_from_block s r) = None \<longleftrightarrow> 231 \<notin> dom (block_of s r))
 \<and> (mains_voltage_v (parse_from_block s r) = None \<longleftrightarrow> 202 \<notin> dom (block_of s r))
 \<and> (mains_freq_hz (parse_from_block s r) = None \<longleftrightarrow> 203 \<notin> dom (block_of s r))
 \<and> (mains_power_w (parse_from_block s r) = None \<longleftrightarrow> 204 \<notin> dom (block_of s r))
 \<and> (inv_voltage_v (parse_from_block s r) = None \<longleftrightarrow> 205 \<notin> dom (block_of s r))
 \<and> (inv_current_a (parse_from_block s r) = None \<longleftrightarrow> 206 \<notin> dom (block_of s r))
 \<and> (inv_freq_hz (parse_from_block s r) = None \<longleftrightarrow> 207 \<notin> dom (block_of s r))
 \<and> (inv_power_w (parse_from_block s r) = None \<longleftrightarrow> 208 \<notin> dom (block_of s r))
 \<and> (inv_charge_power_w (parse_from_block s r) = None \<longleftrightarrow> 209 \<notin> dom (block_of s r))
 \<and> (inv_charge_current_a (parse_from_block s r) = None \<longleftrightarrow> 233 \<notin> dom (block_of s r))
 \<and> (out_voltage_v (parse_from_block s r) = None \<longleftrightarrow> 210 \<notin> dom (block_of s r))
 \<and> (out_current_a (parse_from_block s r) = None \<longleftrightarrow> 211 \<notin> dom (block_of s r))
 \<and> (out_freq_hz (parse_from_block s r) = None \<longleftrightarrow> 212 \<notin> dom (block_of s r))
 \<and> (out_active_power_w (parse_from_block s r) = None \<longleftrightarrow> 213 \<notin> dom (block_of s r))
 \<and> (out_apparent_power_va (parse_from_block s r) = None \<longleftrightarrow> 214 \<notin> dom (block_of s r))
 \<and> (load_percent (parse_from_block s r) = None \<longleftrightarrow> 225 \<notin> dom (block_of s r))
 \<and> (bat_voltage_v (parse_from_block s r) = None \<longleftrightarrow> 215 \<notin> dom (block_of s r))
 \<and> (bat_current_a (parse_from_block s r) = None \<longleftrightarrow> 216 \<notin> dom (block_of s r))
 \<and> (bat_power_w (parse_from_block s r) = None \<longleftrightarrow> 217 \<notin> dom (block_of s r))
 \<and> (soc_percent (parse_from_block s r) = None \<longleftrightarrow> 229 \<notin> dom (block_of s r))
 \<and> (pv_voltage_v (parse_from_block s r) = None \<longleftrightarrow> 219 \<notin> dom (block_of s r))
 \<and> (pv_current_a (parse_from_block s r) = None \<longleftrightarrow> 220 \<notin> dom (block_of s r))
 \<and> (pv_power_w (parse_from_block s r) = None \<longleftrightarrow> 223 \<notin> dom (block_of s r))
 \<and> (pv_charge_power_w (parse_from_block s r) = None \<longleftrightarrow> 224 \<notin> dom (block_of s r))
 \<and> (pv_charge_current_a (parse_from_block s r) = None \<longleftrightarrow> 234 \<notin> dom (block_of s r))
 \<and> dom (block_of s r) = {s ..< s + int (length r)}"
  by (simp only: parse_from_block_sel get_uint_None_iff get_int_None_iff get_ascii_None_iff
        option.map_disc_iff dom_block_of simp_thms)

theorem parse_from_block_absent_fields_witness:
  "device_type (parse_from_block 201 [1, 2300, 0]) = None
 \<and> device_name (parse_from_block 201 [1, 2300, 0]) = None
 \<and> work_mode (parse_from_block 201 [1, 2300, 0]) \<noteq> None
 \<and> mains_voltage_v (parse_from_block 201 [1, 2300, 0]) \<noteq> None
 \<and> mains_freq_hz (parse_from_block 201 [1, 2300, 0]) \<noteq> None
 \<and> mains_power_w (parse_from_block 201 [1, 2300, 0]) = None
 \<and> soc_percent (parse_from_block 201 [1, 2300, 0]) = None"
proof -
  have d: "dom (block_of 201 [1, 2300, 0]) = {201 ..< 204}"
    by (simp add: dom_block_of)
  have e: "\<exists>i<12. 172 + int i \<notin> dom (block_of 201 [1, 2300, 0])"
    by (rule exI [of _ 0]) (simp add: d)
  show ?thesis
    using parse_from_block_absent_fields [of 201 "[1, 2300, 0]"] e
    by (simp add: d)
qed

text \<open>
  C8 fails on the code.  The closure \<open>get_ascii\<close> of \<open>parse_from_block\<close> calls
  \<^verbatim>\<open>rstrip('\\x00')\<close>, which trims the characters backslash, x and 0, where the
  module's helper \<open>ascii\<close> calls \<^verbatim>\<open>rstrip('\x00')\<close>, which trims NUL.  For the device
  name registers 0x4142 followed by eleven zero registers the returned \<open>device_name\<close>
  is AB followed by 22 NUL characters; the helper returns AB on the same bytes.
\<close>

theorem get_ascii_keeps_trailing_nul:
  "device_name (parse_from_block 172 (0x4142 # replicate 11 0))
     = Some (''AB'' @ replicate 22 (CHR 0x00))
   \<and> ascii (concat (map pack_be_H (0x4142 # replicate 11 0))) = ''AB''"
  by code_simp

text \<open>
  C9, as the code has it.  The decoder never fails: the field of index \<open>i\<close> holds the
  value parsed from the \<open>i\<close>-th whitespace-separated token and is absent when there is no
  such token.  A token is parsed as a float first; an integral finite value becomes an
  int, any other float stays a float, and a token that is no number is kept as the
  string it is.
\<close>

theorem decode_qpigs_tokens:
  "(\<forall>i<24. decode_qpigs s (qpigs_fields ! i) =
       (if i < length (str_split (str_strip s))
        then Some (parse_value (str_split (str_strip s) ! i)) else None))
   \<and> parse_value t =
       (case py_float t of
          None \<Rightarrow> PyStr t
        | Some (Finite x) \<Rightarrow> if x \<in> \<int> then PyInt \<lfloor>x\<rfloor> else PyFloat (Finite x)
        | Some f \<Rightarrow> PyFloat f)"
  using decode_qpigs_nth [of _ s] parse_value_cases [of t] by blast

theorem decode_qpigs_tokens_witness:
  "decode_qpigs ''230.0 50.0 230.0 50.0 0800 0600 030 392 52.4 010 062'' ''grid_voltage''
     = Some (PyInt 230)
   \<and> decode_qpigs ''230.0 50.0 230.0 50.0 0800 0600 030 392 52.4 010 062'' ''battery_voltage''
     = Some (PyFloat (Finite (524 / 10)))
   \<and> decode_qpigs ''230.0 50.0 230.0 50.0 0800 0600 030 392 52.4 010 062'' ''battery_capacity''
     = Some (PyInt 62)
   \<and> decode_qpigs ''230.0 50.0 230.0 50.0 0800 0600 030 392 52.4 010 062''
        ''inverter_heat_sink_temperature'' = None"
proof -
  let ?s = "''230.0 50.0 230.0 50.0 0800 0600 030 392 52.4 010 062''"
  note d = decode_qpigs_tokens [of ?s, THEN conjunct1]
  have p1: "parse_value ''230.0'' = PyInt 230"
    using decode_qpigs_tokens [of ?s "''230.0''", THEN conjunct2]
    by (simp add: qpigs_example_floats)
  have p2: "parse_value ''52.4'' = PyFloat (Finite (524 / 10))"
    using decode_qpigs_tokens [of ?s "''52.4''", THEN conjunct2] not_int_524
    by (simp add: qpigs_example_floats)
  have p3: "parse_value ''062'' = PyInt 62"
    using decode_qpigs_tokens [of ?s "''062''", THEN conjunct2]
    by (simp add: qpigs_example_floats)
  have "decode_qpigs ?s (qpigs_fields ! 0) = Some (PyInt 230)"
    using d [THEN spec, of 0] by (simp add: qpigs_example_tokens p1)
  moreover have "decode_qpigs ?s (qpigs_fields ! 8) = Some (PyFloat (Finite (524 / 10)))"
    using d [THEN spec, of 8] by (simp add: qpigs_example_tokens p2)
  moreover have "decode_qpigs ?s (qpigs_fields ! 10) = Some (PyInt 62)"
    using d [THEN spec, of 10] by (simp add: qpigs_example_tokens p3)
  moreover have "decode_qpigs ?s (qpigs_fields ! 11) = None"
    using d [THEN spec, of 11] by (simp add: qpigs_example_tokens)
  ultimately show ?thesis
    by (simp only: qpigs_field_names)
qed

text \<open>
  C9 as stated has the token 230.0 decode to the float 230.0, not an integer.  The value
  230.0 is integral, so \<open>parse_value\<close> converts it: \<open>grid_voltage\<close> is the int 230.
\<close>

theorem grid_voltage_decodes_to_int:
  "decode_qpigs ''230.0 50.0 230.0 50.0 0800 0600 030 392 52.4 010 062'' ''grid_voltage''
     = Some (PyInt 230)
   \<and> decode_qpigs ''230.0 50.0 230.0 50.0 0800 0600 030 392 52.4 010 062'' ''grid_voltage''
     \<noteq> Some (PyFloat (Finite 230))"
proof -
  let ?s = "''230.0 50.0 230.0 50.0 0800 0600 030 392 52.4 010 062''"
  have "parse_value ''230.0'' = PyInt 230"
    by (simp add: parse_value_cases qpigs_example_floats)
  then have "decode_qpigs ?s (qpigs_fields ! 0) = Some (PyInt 230)"
    using decode_qpigs_nth [of 0 ?s] by (simp add: qpigs_example_tokens)
  then show ?thesis
    by (simp add: qpigs_field_names)
qed



end
